theory Spec2Isabelle
  imports Complex_Main "HOL-Library.Word"
begin

section \<open>The rendering engine of the bt file-tree browser\<close>

text \<open>
  The development embeds the renderer of the terminal file-tree browser: the viewport crop
  \<open>cropTree\<close>, the tree flattening \<open>renderTree\<close>, the size formatter \<open>formatSize\<close> and the
  frame function \<open>Render\<close> with its heading. The repository holds two versions of the
  renderer: the package \<open>ui\<close> (heading, width limit, size formatter) and the older file
  \<open>ui.go\<close> of package \<open>main\<close>; definitions taken from the latter carry the suffix \<open>_ui\<close>,
  and \<open>cropTree\<close> is the same text in both.

  Go's \<open>int\<close> is modelled by the mathematical integers: the quantities involved are window
  sizes, line counts and line indices, far below \<open>2 ^ 63\<close>. A run-time panic of the Go
  program is a value of type \<open>panic\<close>, returned on the left of a sum.
\<close>

subsection \<open>Strings\<close>

text \<open>
  A Go string is modelled by the list of its Unicode code points, the list that
  \<open>[]rune(s)\<close> yields; \<open>utf8.RuneCountInString\<close> is the length of that list, a slice
  \<open>[]rune(s)[:k]\<close> is \<open>take k\<close>, and \<open>+\<close> is \<open>@\<close>. File names are taken to be valid UTF-8,
  for which the correspondence is one to one.
\<close>

type_synonym rune = nat
type_synonym gostring = "rune list"

definition str :: "string \<Rightarrow> gostring" where
  "str = map of_char"

definition nl :: gostring where
  "nl = [10]"

text \<open>\<open>strings.Repeat\<close>; every count passed by the renderer is a depth, hence not negative.\<close>

definition Repeat :: "gostring \<Rightarrow> nat \<Rightarrow> gostring" where
  "Repeat s count = concat (replicate count s)"

text \<open>\<open>strings.Join\<close>.\<close>

fun Join :: "gostring list \<Rightarrow> gostring \<Rightarrow> gostring" where
  "Join [] sep = []"
| "Join [x] sep = x"
| "Join (x # y # ys) sep = x @ sep @ Join (y # ys) sep"

text \<open>\<open>strings.Split\<close> for a separator of one code point, as in \<open>strings.Split(s, "\n")\<close>.\<close>

fun Split :: "gostring \<Rightarrow> rune \<Rightarrow> gostring list" where
  "Split [] sep = [[]]"
| "Split (c # cs) sep =
     (if c = sep then [] # Split cs sep
      else (case Split cs sep of [] \<Rightarrow> [[c]] | l # ls \<Rightarrow> (c # l) # ls))"

subsection \<open>Panics and slices\<close>

datatype panic = SliceBounds | IndexRange

text \<open>
  The slice expression \<open>xs[lo:hi]\<close>. Go panics unless \<open>0 \<le> lo \<le> hi \<le> cap xs\<close>; every slice
  expression of the renderer has \<open>hi \<le> len xs\<close> by construction, so the capacity never
  decides and the length stands for it.
\<close>

definition slice :: "'a list \<Rightarrow> int \<Rightarrow> int \<Rightarrow> panic + 'a list" where
  "slice xs lo hi =
     (if 0 \<le> lo \<and> lo \<le> hi \<and> hi \<le> int (length xs)
      then Inr (take (nat (hi - lo)) (drop (nat lo) xs))
      else Inl SliceBounds)"

subsection \<open>The tree snapshot and the collaborators\<close>

text \<open>
  \<open>fs.FileInfo\<close>, with the values its accessors return; every node has one. The
  modification time is kept as an opaque number that only the clock format reads.
\<close>

record FileInfo =
  Name :: gostring
  Size :: "64 word"
  ModTime :: int
  IsDir :: bool

text \<open>
  A node carries its address: the renderer compares node pointers (\<open>tree.Marked == node\<close>),
  and two pointers are equal when they hold the same address. \<open>Children\<close> is \<open>None\<close> for
  a nil slice and \<open>Some []\<close> for an empty one; an entry of the slice is a pointer and may
  be nil.
\<close>

datatype Node =
  Node (addr: nat) (Path: gostring) (Info: FileInfo) (Children: "Node option list option")

text \<open>
  Modelled from the spec: the type \<open>Tree\<close> and its accessors belong to the tree package, which
  is not among the sources. \<open>SelectedChild\<close> is the value of \<open>GetSelectedChild()\<close>, the read
  accessor for the currently selected child of \<open>CurrentDir\<close> (nil when there is none);
  \<open>ReadSelectedChildContent\<close> is the content read operation, from a byte limit to the
  bytes read, at most that many, or \<open>None\<close> for an error. \<open>CurrentDir\<close> is never nil: it
  is always a directory within the tree.
\<close>

record Tree =
  Root :: "Node option"
  CurrentDir :: Node
  Marked :: "Node option"
  SelectedChild :: "Node option"
  ReadSelectedChildContent :: "int \<Rightarrow> 8 word list option"

text \<open>
  Modelled from the spec: the state package is not among the sources either; the operation
  buffer is the pair of values its methods \<open>Repr()\<close> and \<open>IsInput()\<close> return.
\<close>

record OpBuf =
  Repr :: gostring
  IsInput :: bool

record State =
  Tree :: Tree
  OpBuf :: OpBuf
  InputBuf :: gostring

text \<open>
  The libraries the renderer calls are parameters: the colour functions of the colour
  package, the lipgloss styles it builds (the grey background, the width cap of the tree
  pane, the framed preview box with its left margin and width cap), lipgloss's width
  measure and horizontal join, the RFC 822 clock format, and the standard library's UTF-8
  validation and decoding of a byte slice.
\<close>

record libs =
  BlueString :: "gostring \<Rightarrow> gostring"
  YellowString :: "gostring \<Rightarrow> gostring"
  GreenString :: "gostring \<Rightarrow> gostring"
  MagentaString :: "gostring \<Rightarrow> gostring"
  backgroundRender :: "gostring \<Rightarrow> gostring"
  maxWidthRender :: "int \<Rightarrow> gostring \<Rightarrow> gostring"
  contentRender :: "int \<Rightarrow> int \<Rightarrow> gostring \<Rightarrow> gostring"
  Width :: "gostring \<Rightarrow> int"
  JoinHorizontal :: "gostring \<Rightarrow> gostring \<Rightarrow> gostring"
  FormatRFC822 :: "int \<Rightarrow> gostring"
  utf8Valid :: "8 word list \<Rightarrow> bool"
  stringOfBytes :: "8 word list \<Rightarrow> gostring"

text \<open>Pointer equality \<open>p == node\<close> of a possibly nil pointer with a non-nil one.\<close>

definition same_node :: "Node option \<Rightarrow> Node \<Rightarrow> bool" where
  "same_node p n = (case p of None \<Rightarrow> False | Some m \<Rightarrow> addr m = addr n)"

subsection \<open>The stack\<close>

text \<open>
  The stack keeps its items in a slice: \<open>Push\<close> appends, \<open>Pop\<close> takes the last item. \<open>Pop\<close>
  indexes the slice and would panic on an empty stack; its one caller tests \<open>Len\<close> first.
\<close>

definition Push :: "'a list \<Rightarrow> 'a \<Rightarrow> 'a list" where
  "Push items el = items @ [el]"

definition Len :: "'a list \<Rightarrow> int" where
  "Len items = int (length items)"

definition Pop :: "'a list \<Rightarrow> 'a \<times> 'a list" where
  "Pop items = (last items, butlast items)"

subsection \<open>The size formatter\<close>

text \<open>
  A \<open>float64\<close> is modelled by the real number it denotes. The quotient \<open>s / base\<close> is exact
  in floating point when the base is a power of two, as in the one call of the renderer
  (base 1024); for another base the model divides exactly where Go rounds to 53 bits.
  Not-a-number and the infinities are not values of the model; a conversion from \<open>int64\<close>
  never yields them.
\<close>

definition sizes :: "gostring list" where
  "sizes = [str ''b'', str ''Kb'', str ''Mb'', str ''Gb'', str ''Tb'', str ''Pb'', str ''Eb'']"

function decimal :: "nat \<Rightarrow> gostring" where
  "decimal n = (if n < 10 then [48 + n] else decimal (n div 10) @ [48 + n mod 10])"
  by pat_completeness auto
termination
  by (relation "measure id") auto

definition roundHalfEven :: "real \<Rightarrow> int" where
  "roundHalfEven x =
     (let f = \<lfloor>x\<rfloor>; d = x - of_int f
      in if d < 1 / 2 then f
         else if d > 1 / 2 then f + 1
         else if even f then f else f + 1)"

text \<open>
  The verb \<open>%.<prec>f\<close> of \<open>fmt.Sprintf\<close>: the value rounded to \<open>prec\<close> decimals, ties to
  even, printed with its sign, its integer digits and exactly \<open>prec\<close> decimals.
\<close>

definition fmtFixed :: "nat \<Rightarrow> real \<Rightarrow> gostring" where
  "fmtFixed prec x =
     (let m = nat (roundHalfEven (\<bar>x\<bar> * 10 ^ prec));
          ip = decimal (m div 10 ^ prec);
          fp = decimal (m mod 10 ^ prec)
      in (if x < 0 then str ''-'' else [])
         @ ip
         @ (if prec > 0 then str ''.'' @ replicate (prec - length fp) 48 @ fp else []))"

function sizeLoop :: "real \<Rightarrow> real \<Rightarrow> nat \<Rightarrow> real \<times> nat" where
  "sizeLoop s base i =
     (if s \<ge> base \<and> i < length sizes then sizeLoop (s / base) base (i + 1) else (s, i))"
  by pat_completeness auto
termination
  by (relation "measure (\<lambda>(s, base, i). length sizes - i)") auto

definition formatSize :: "real \<Rightarrow> real \<Rightarrow> panic + gostring" where
  "formatSize s base =
     (let (s', i) = sizeLoop s base 0;
          prec = (if i > 1 then 2 else 0)
      in if i < length sizes
         then Inr (fmtFixed prec s' @ str '' '' @ sizes ! i)
         else Inl IndexRange)"

text \<open>
  The conversion \<open>float64(n)\<close> of an \<open>int64\<close>: exact below \<open>2 ^ 53\<close>, otherwise rounded to
  53 significant bits, ties to even.
\<close>

function excessBits :: "int \<Rightarrow> nat" where
  "excessBits a = (if a < 2 ^ 53 then 0 else Suc (excessBits (a div 2)))"
  by pat_completeness auto
termination
  by (relation "measure nat") auto

definition float64 :: "int \<Rightarrow> real" where
  "float64 x =
     (let a = \<bar>x\<bar>;
          e = excessBits a;
          q = a div 2 ^ e;
          r = a mod 2 ^ e;
          q' = (if 2 * r > 2 ^ e \<or> (2 * r = 2 ^ e \<and> odd q) then q + 1 else q)
      in of_int (sgn x * q' * 2 ^ e))"

subsection \<open>The renderer and its viewport\<close>

definition previewBytesLimit :: int where
  "previewBytesLimit = 10000"

definition minHeight :: int where
  "minHeight = 10"

definition minWidth :: int where
  "minWidth = 10"

record Renderer =
  EdgePadding :: int
  offsetMem :: int

text \<open>
  \<open>cropTree\<close> writes \<open>r.offsetMem\<close> before it evaluates the slice expression it returns, so
  the model returns the renderer after the call beside the result: the stored offset is
  the new one also when the slice expression panics.
\<close>

definition cropTree ::
  "Renderer \<Rightarrow> 'a list \<Rightarrow> int \<Rightarrow> int \<Rightarrow> (panic + 'a list) \<times> Renderer" where
  "cropTree r lines currentLine windowHeight =
     (let linesLen = int (length lines);
          offset = offsetMem r;
          limit = linesLen
      in if windowHeight > 0 then
           let offset1 =
                 (if currentLine + 1 > windowHeight + offset - EdgePadding r
                  then min (currentLine + 1 - windowHeight + EdgePadding r)
                           (linesLen - windowHeight)
                  else offset);
               offset2 =
                 (if currentLine < EdgePadding r + offset1
                  then max (currentLine - EdgePadding r) 0
                  else offset1);
               r' = r\<lparr>offsetMem := offset2\<rparr>;
               limit' = min (windowHeight + offset2) linesLen
           in (slice lines offset2 limit', r')
         else (slice lines offset limit, r))"

subsection \<open>Flattening the tree\<close>

type_synonym stackEl = "Node option \<times> nat"

text \<open>
  The inner loop \<open>for i := len(node.Children) - 1; i >= 0; i--\<close> pushes the children from
  the last to the first.
\<close>

definition pushChildren :: "stackEl list \<Rightarrow> Node option list \<Rightarrow> nat \<Rightarrow> stackEl list" where
  "pushChildren s chs depth = foldl (\<lambda>s' ch. Push s' (ch, depth + 1)) s (rev chs)"

text \<open>The line appended for an empty current directory.\<close>

definition placeholder :: "libs \<Rightarrow> nat \<Rightarrow> gostring" where
  "placeholder lib depth =
     Repeat (str ''  '') (depth + 1) @ str ''...'' @ YellowString lib (str '' <-'')"

text \<open>
  The loop \<open>for s.Len() > 0\<close> of \<open>renderTree\<close>. The two versions of \<open>renderTree\<close> differ
  only in the statements that compute the styled name of a node, which the loop takes as
  the parameter \<open>styledName\<close>.
\<close>

function renderLoop ::
  "(Node \<Rightarrow> nat \<Rightarrow> gostring) \<Rightarrow> libs \<Rightarrow> Tree \<Rightarrow> stackEl list \<Rightarrow> int \<Rightarrow> int \<Rightarrow> gostring list
     \<Rightarrow> gostring list \<times> int" where
  "renderLoop styledName lib tree s linen currentLine lines =
     (if Len s > 0 then
        (let el = fst (Pop s); s1 = snd (Pop s);
             linen1 = linen + 1;
             depth = snd el
         in case fst el of
              None \<Rightarrow> renderLoop styledName lib tree s1 linen1 currentLine lines
            | Some node \<Rightarrow>
                (let repr = Repeat (str ''  '') depth @ styledName node depth;
                     sel = same_node (SelectedChild tree) node;
                     repr1 = (if sel then repr @ YellowString lib (str '' <-'') else repr);
                     currentLine1 = (if sel then linen1 else currentLine);
                     lines1 = lines @ [repr1]
                 in case Children node of
                      None \<Rightarrow> renderLoop styledName lib tree s1 linen1 currentLine1 lines1
                    | Some chs \<Rightarrow>
                        (let empty = (length chs = 0 \<and> addr (CurrentDir tree) = addr node);
                             lines2 = (if empty then lines1 @ [placeholder lib depth] else lines1);
                             currentLine2 = (if empty then linen1 + 1 else currentLine1)
                         in renderLoop styledName lib tree (pushChildren s1 chs depth)
                              linen1 currentLine2 lines2)))
      else (lines, currentLine))"
  by pat_completeness auto
termination
proof (relation "measure (\<lambda>(styledName, lib, tree, s, linen, currentLine, lines).
                   size_list (\<lambda>el. size_option size (fst el)) s)", goal_cases)
  case 1
  show ?case by simp
next
  case (2 styledName lib tree s linen currentLine lines el s1 linen1 depth)
  have "size_list f xs = size_list f (butlast xs) + f (last xs) + 1"
    if "xs \<noteq> []" for f :: "stackEl \<Rightarrow> nat" and xs
    using that by (induction xs) auto
  with 2 show ?case
    by (cases "s = []") (simp_all add: Len_def Pop_def)
next
  case (3 styledName lib tree s linen currentLine lines el s1 linen1 depth node)
  have "size_list f xs = size_list f (butlast xs) + f (last xs) + 1"
    if "xs \<noteq> []" for f :: "stackEl \<Rightarrow> nat" and xs
    using that by (induction xs) auto
  with 3 show ?case
    by (cases "s = []") (simp_all add: Len_def Pop_def)
next
  case (4 styledName lib tree s linen currentLine lines el s1 linen1 depth node repr sel repr1
      currentLine1 lines1 chs)
  then have ne: "s \<noteq> []" by (auto simp: Len_def)
  from 4 have top: "fst (last s) = Some node" by (simp add: Pop_def)
  have snoc: "size_list f xs = size_list f (butlast xs) + f (last xs) + 1"
    if "xs \<noteq> []" for f :: "stackEl \<Rightarrow> nat" and xs
    using that by (induction xs) auto
  have pushed: "foldl (\<lambda>s' ch. Push s' (ch, d)) s0 xs = s0 @ map (\<lambda>ch. (ch, d)) xs"
    for s0 :: "stackEl list" and xs d
    by (induction xs arbitrary: s0) (simp_all add: Push_def)
  have rev: "size_list g (rev xs) = size_list g xs" for g :: "Node option \<Rightarrow> nat" and xs
    by (induction xs) (simp_all add: size_list_append)
  have kids: "size node = size_list (size_option size) chs + 2"
    using 4 by (cases node) simp
  have weight: "size_list ((\<lambda>el. size_option size (fst el)) \<circ> (\<lambda>ch. (ch, d))) (rev chs)
        = size_list (size_option size) chs" for d :: nat
    by (simp add: comp_def rev)
  show ?case
    using 4 ne top
    by (simp add: Pop_def pushChildren_def pushed weight snoc [OF ne] kids)
qed

text \<open>The styled name of a node in package \<open>ui\<close>: truncation, directory colour, mark.\<close>

definition styledName :: "libs \<Rightarrow> Tree \<Rightarrow> int \<Rightarrow> Node \<Rightarrow> nat \<Rightarrow> gostring" where
  "styledName lib tree widthLim node depth =
     (let name = Name (Info node);
          nameRuneCountNoStyle = int (length name);
          indent = Repeat (str ''  '') depth;
          indentRuneCount = int (length indent);
          name1 = (if nameRuneCountNoStyle + indentRuneCount > widthLim - 6
                   then take (nat (max 0 (widthLim - indentRuneCount - 6))) name @ str ''...''
                   else name);
          name2 = (if IsDir (Info node) then BlueString lib (Name (Info node)) else name1);
          name3 = (if same_node (Marked tree) node then backgroundRender lib name2 else name2)
      in name3)"

text \<open>The styled name of a node in \<open>ui.go\<close>: directory colour only.\<close>

definition styledName_ui :: "libs \<Rightarrow> Node \<Rightarrow> nat \<Rightarrow> gostring" where
  "styledName_ui lib node depth =
     (let name = Name (Info node)
      in if IsDir (Info node) then BlueString lib (Name (Info node)) else name)"

definition renderTree :: "libs \<Rightarrow> Tree \<Rightarrow> int \<Rightarrow> gostring list \<times> int" where
  "renderTree lib tree widthLim =
     renderLoop (styledName lib tree widthLim) lib tree (Push [] (Root tree, 0)) (- 1) 0 []"

definition renderTree_ui :: "libs \<Rightarrow> Tree \<Rightarrow> gostring list \<times> int" where
  "renderTree_ui lib tree =
     renderLoop (styledName_ui lib) lib tree (Push [] (Root tree, 0)) (- 1) 0 []"

subsection \<open>The frame\<close>

definition renderHeading :: "libs \<Rightarrow> State \<Rightarrow> panic + (gostring \<times> int)" where
  "renderHeading lib s =
     (let selected = SelectedChild (Tree s);
          path = Path (CurrentDir (Tree s)) @ str ''/...'';
          changeTime = str ''--'';
          size = str ''0 B''
      in case (case selected of
                 None \<Rightarrow> Inr (path, changeTime, size)
               | Some sel \<Rightarrow>
                   (case formatSize (float64 (sint (Size (Info sel)))) 1024 of
                      Inl e \<Rightarrow> Inl e
                    | Inr size' \<Rightarrow>
                        Inr (Path sel, FormatRFC822 lib (ModTime (Info sel)), size'))) of
           Inl e \<Rightarrow> Inl e
         | Inr (path', changeTime', size') \<Rightarrow>
             (let markedPath = (case Marked (Tree s) of None \<Rightarrow> [] | Some m \<Rightarrow> Path m);
                  operationBar = str '': '' @ Repr (OpBuf s);
                  operationBar1 =
                    (if markedPath \<noteq> [] then operationBar @ str '' ['' @ markedPath @ str '']''
                     else operationBar);
                  operationBar2 =
                    (if IsInput (OpBuf s)
                     then operationBar1 @ str '' | '' @ backgroundRender lib (InputBuf s) @ str '' |''
                     else operationBar1);
                  header = [GreenString lib (str ''> '' @ path'),
                            MagentaString lib (changeTime' @ str '' : '' @ size'),
                            operationBar2]
              in Inr (Join header nl, int (length header))))"

text \<open>
  The preview pane, from the content read to the horizontal join: the same statements in
  both versions. The slice \<open>contentLines[:max(min(winHeight, len(contentLines)), 0)]\<close> has
  its bound between 0 and the length, so it is \<open>take\<close>.
\<close>

definition withContent :: "libs \<Rightarrow> Tree \<Rightarrow> int \<Rightarrow> int \<Rightarrow> gostring \<Rightarrow> gostring" where
  "withContent lib tree sectionWidth winHeight renderedStyledTree =
     (case ReadSelectedChildContent tree previewBytesLimit of
        None \<Rightarrow> renderedStyledTree
      | Some content \<Rightarrow>
          (let leftMargin = sectionWidth - Width lib renderedStyledTree;
               contentLines =
                 (if \<not> utf8Valid lib content then [str ''<binary content>'']
                  else (let contentLines = Split (stringOfBytes lib content) 10
                        in take (nat (max (min winHeight (int (length contentLines))) 0))
                             contentLines))
           in JoinHorizontal lib renderedStyledTree
                (contentRender lib leftMargin (sectionWidth + leftMargin - 1)
                   (Join contentLines nl))))"

text \<open>
  The section width \<open>int(math.Floor(0.5 * float64(winWidth)))\<close> is half the width, rounded
  down.
\<close>

definition renderTreeWithContent ::
  "libs \<Rightarrow> Renderer \<Rightarrow> Tree \<Rightarrow> int \<Rightarrow> int \<Rightarrow> (panic + gostring) \<times> Renderer" where
  "renderTreeWithContent lib r tree winHeight winWidth =
     (if winWidth < minWidth \<or> winHeight < minHeight then (Inr (str ''too small =('' @ nl), r)
      else
        (let sectionWidth = winWidth div 2;
             renderedTree = fst (renderTree lib tree sectionWidth);
             selectedRow = snd (renderTree lib tree sectionWidth)
         in case cropTree r renderedTree selectedRow winHeight of
              (Inl e, r') \<Rightarrow> (Inl e, r')
            | (Inr croppedTree, r') \<Rightarrow>
                (let renderedStyledTree = maxWidthRender lib sectionWidth (Join croppedTree nl)
                 in (Inr (withContent lib tree sectionWidth winHeight renderedStyledTree), r'))))"

definition Render ::
  "libs \<Rightarrow> Renderer \<Rightarrow> State \<Rightarrow> int \<Rightarrow> int \<Rightarrow> (panic + gostring) \<times> Renderer" where
  "Render lib r s winHeight winWidth =
     (case renderHeading lib s of
        Inl e \<Rightarrow> (Inl e, r)
      | Inr (renderedHeading, headLen) \<Rightarrow>
          (case renderTreeWithContent lib r (Tree s) (winHeight - headLen) winWidth of
             (Inl e, r') \<Rightarrow> (Inl e, r')
           | (Inr renderedTree, r') \<Rightarrow> (Inr (renderedHeading @ nl @ renderedTree), r')))"

definition Render_ui ::
  "libs \<Rightarrow> Renderer \<Rightarrow> Tree \<Rightarrow> int \<Rightarrow> int \<Rightarrow> (panic + gostring) \<times> Renderer" where
  "Render_ui lib r tree winHeight winWidth =
     (let renderedTree = fst (renderTree_ui lib tree);
          selectedRow = snd (renderTree_ui lib tree)
      in case cropTree r renderedTree selectedRow winHeight of
           (Inl e, r') \<Rightarrow> (Inl e, r')
         | (Inr croppedTree, r') \<Rightarrow>
             (let sectionWidth = winWidth div 2;
                  renderedStyledTree = maxWidthRender lib sectionWidth (Join croppedTree nl)
              in (Inr (withContent lib tree sectionWidth winHeight renderedStyledTree), r')))"

subsection \<open>Pre-order, as the specification words it\<close>

text \<open>
  The nodes of a tree in pre-order with their depths: the parent first, then the whole
  subtree of each child, the children from left to right; a node whose children are nil
  is listed and not entered, and a nil child pointer contributes nothing.
\<close>

fun preorder :: "nat \<Rightarrow> Node \<Rightarrow> (Node \<times> nat) list" where
  "preorder depth (Node a p i chs) =
     (Node a p i chs, depth) #
     (case chs of
        None \<Rightarrow> []
      | Some cs \<Rightarrow>
          concat (map (\<lambda>c. case c of None \<Rightarrow> [] | Some ch \<Rightarrow> preorder (depth + 1) ch) cs))"

text \<open>The line of a node: indent, styled name, and the marker when the node is selected.\<close>

definition nodeLine ::
  "(Node \<Rightarrow> nat \<Rightarrow> gostring) \<Rightarrow> libs \<Rightarrow> Tree \<Rightarrow> Node \<Rightarrow> nat \<Rightarrow> gostring" where
  "nodeLine nm lib tree node depth =
     Repeat (str ''  '') depth @ nm node depth
       @ (if same_node (SelectedChild tree) node then YellowString lib (str '' <-'') else [])"

text \<open>
  The lines a visited node stands for: its own line and, when it is the current directory
  and has zero children, the placeholder line one level deeper.
\<close>

definition emitted ::
  "(Node \<Rightarrow> nat \<Rightarrow> gostring) \<Rightarrow> libs \<Rightarrow> Tree \<Rightarrow> Node \<times> nat \<Rightarrow> gostring list" where
  "emitted nm lib tree v =
     nodeLine nm lib tree (fst v) (snd v) #
       (if Children (fst v) = Some [] \<and> addr (CurrentDir tree) = addr (fst v)
        then [placeholder lib (snd v)] else [])"

definition visited :: "stackEl \<Rightarrow> (Node \<times> nat) list" where
  "visited el = (case fst el of None \<Rightarrow> [] | Some node \<Rightarrow> preorder (snd el) node)"




subsection \<open>Concrete inputs\<close>

text \<open>
  The libraries with colours switched off: every colour and style function returns its
  text unchanged. The layout functions are plain stand-ins (no width cap, no frame); the
  facts evaluated on this instance do not depend on them.
\<close>

definition plain :: libs where
  "plain = \<lparr>BlueString = (\<lambda>s. s), YellowString = (\<lambda>s. s), GreenString = (\<lambda>s. s),
     MagentaString = (\<lambda>s. s), backgroundRender = (\<lambda>s. s), maxWidthRender = (\<lambda>w s. s),
     contentRender = (\<lambda>m w s. s), Width = (\<lambda>s. int (length s)),
     JoinHorizontal = (\<lambda>a b. a @ b), FormatRFC822 = (\<lambda>t. []),
     utf8Valid = (\<lambda>bs. True), stringOfBytes = map unat\<rparr>"

definition fileNode :: "nat \<Rightarrow> string \<Rightarrow> string \<Rightarrow> Node" where
  "fileNode a path name =
     Node a (str path) \<lparr>Name = str name, Size = 0, ModTime = 0, IsDir = False\<rparr> None"

definition dirNode :: "nat \<Rightarrow> string \<Rightarrow> string \<Rightarrow> Node option list \<Rightarrow> Node" where
  "dirNode a path name chs =
     Node a (str path) \<lparr>Name = str name, Size = 0, ModTime = 0, IsDir = True\<rparr> (Some chs)"

text \<open>An empty directory that is root and current directory; nothing is selected.\<close>

definition emptyRepo :: Tree where
  "emptyRepo = \<lparr>Root = Some (dirNode 1 ''/repo'' ''repo'' []),
     CurrentDir = dirNode 1 ''/repo'' ''repo'' [], Marked = None, SelectedChild = None,
     ReadSelectedChildContent = (\<lambda>n. None)\<rparr>"

text \<open>A directory of eight files, the last one selected: nine lines, selected row 8.\<close>

definition eightFiles :: "Node option list" where
  "eightFiles = map (\<lambda>k. Some (fileNode k ''/repo/f'' ''f'')) [2, 3, 4, 5, 6, 7, 8, 9]"

definition fullRepo :: Tree where
  "fullRepo = \<lparr>Root = Some (dirNode 1 ''/repo'' ''repo'' eightFiles),
     CurrentDir = dirNode 1 ''/repo'' ''repo'' eightFiles, Marked = None,
     SelectedChild = Some (fileNode 9 ''/repo/f'' ''f''),
     ReadSelectedChildContent = (\<lambda>n. None)\<rparr>"

text \<open>
  A root with a file and an empty subdirectory; the subdirectory is the current directory
  while the accessor still returns the file.
\<close>

definition subRepo :: Tree where
  "subRepo = \<lparr>Root = Some (dirNode 1 ''/repo'' ''repo''
                 [Some (fileNode 2 ''/repo/x.txt'' ''x.txt''), Some (dirNode 3 ''/repo/sub'' ''sub'' [])]),
     CurrentDir = dirNode 3 ''/repo/sub'' ''sub'' [], Marked = None,
     SelectedChild = Some (fileNode 2 ''/repo/x.txt'' ''x.txt''),
     ReadSelectedChildContent = (\<lambda>n. None)\<rparr>"

definition emptyState :: State where
  "emptyState = \<lparr>Tree = emptyRepo, OpBuf = \<lparr>Repr = [], IsInput = False\<rparr>, InputBuf = []\<rparr>"

definition fullState :: State where
  "fullState = \<lparr>Tree = fullRepo, OpBuf = \<lparr>Repr = [], IsInput = False\<rparr>, InputBuf = []\<rparr>"


section \<open>Properties of the viewport crop\<close>

lemma cropTree_offset_untouched:
  "windowHeight \<le> 0 \<Longrightarrow> snd (cropTree r lines currentLine windowHeight) = r"
  by (simp add: cropTree_def Let_def)

text \<open>
  Where the list fills the window and the stored offset is in range, the crop returns a
  full window and keeps the offset in range, whatever the padding and the selected index.
\<close>

lemma cropTree_keeps_offset:
  assumes "0 < H" and "H \<le> int (length ls)"
    and "0 \<le> offsetMem r" and "offsetMem r \<le> int (length ls) - H"
  shows "0 \<le> offsetMem (snd (cropTree r ls c H))
       \<and> offsetMem (snd (cropTree r ls c H)) \<le> int (length ls) - H"
  using assms by (simp add: cropTree_def Let_def) linarith

lemma slice_length:
  "0 \<le> lo \<Longrightarrow> lo \<le> hi \<Longrightarrow> hi \<le> int (length xs) \<Longrightarrow>
     \<exists>ys. slice xs lo hi = Inr ys \<and> int (length ys) = hi - lo"
  by (simp add: slice_def)

lemma cropTree_fst:
  "0 < H \<Longrightarrow> fst (cropTree r ls c H) =
     slice ls (offsetMem (snd (cropTree r ls c H)))
       (min (H + offsetMem (snd (cropTree r ls c H))) (int (length ls)))"
  by (simp add: cropTree_def Let_def)

lemma cropTree_keeps_window:
  assumes "0 < H" and "H \<le> int (length ls)"
    and "0 \<le> offsetMem r" and "offsetMem r \<le> int (length ls) - H"
  shows "\<exists>xs. fst (cropTree r ls c H) = Inr xs \<and> int (length xs) = H"
proof -
  let ?o = "offsetMem (snd (cropTree r ls c H))"
  have o: "0 \<le> ?o" "?o \<le> int (length ls) - H"
    using cropTree_keeps_offset [OF assms] by simp_all
  then have m: "min (H + ?o) (int (length ls)) = H + ?o" by simp
  have "\<exists>ys. slice ls ?o (H + ?o) = Inr ys \<and> int (length ys) = (H + ?o) - ?o"
    using o assms(1) by (intro slice_length) simp_all
  then show ?thesis
    using cropTree_fst [OF assms(1), of r ls c] m by simp
qed

text \<open>
  Claim C1. With a window height \<open>H > 0\<close> the crop should return \<open>min H N\<close> lines and
  keep \<open>0 \<le> offset \<le> max 0 (N - H)\<close>. The code clamps the offset of a selection near the
  bottom edge by \<open>min \<dots> (linesLen - windowHeight)\<close>, which is negative when the list is
  shorter than the window: nine lines in a window of ten rows, padding 2, a fresh
  renderer and the last line selected store the offset \<open>-1\<close> and the slice expression
  \<open>lines[-1:9]\<close> panics.
\<close>

theorem cropTree_short_list_panics:
  "cropTree \<lparr>EdgePadding = 2, offsetMem = 0\<rparr> (replicate 9 ''line'') 8 10
     = (Inl SliceBounds, \<lparr>EdgePadding = 2, offsetMem = - 1\<rparr>)"
  by (simp add: cropTree_def slice_def)

text \<open>
  Claim C6, as stated: for every list, selection, height \<open>H > 0\<close> and padding, a second
  call with the same arguments leaves the offset where the first call put it. It fails
  when the padding is at least half the window and the stored offset lies beyond
  \<open>N - H\<close> because the list has shrunk since the last frame. A fresh renderer with
  padding 5 and a window of ten rows stores the offset 15 on a list of 25 lines with the
  last line selected; on a list of twenty lines with the last line selected the next call
  stores 14 and returns a slice, and the call after it, with the same arguments, stores 10.
\<close>

theorem cropTree_twice_counterexample:
  "offsetMem (snd (cropTree \<lparr>EdgePadding = 5, offsetMem = 0\<rparr> (replicate 25 ''line'') 24 10)) = 15
   \<and> offsetMem (snd (cropTree \<lparr>EdgePadding = 5, offsetMem = 15\<rparr> (replicate 20 ''line'') 19 10)) = 14
   \<and> offsetMem (snd (cropTree
        (snd (cropTree \<lparr>EdgePadding = 5, offsetMem = 15\<rparr> (replicate 20 ''line'') 19 10))
        (replicate 20 ''line'') 19 10)) = 10
   \<and> fst (cropTree \<lparr>EdgePadding = 5, offsetMem = 15\<rparr> (replicate 20 ''line'') 19 10)
        = Inr (replicate 6 ''line'')"
  by (simp add: cropTree_def slice_def)

text \<open>
  Claim C6, amended: the second call leaves the renderer as the first call left it whenever
  the padding is less than half the window height, or the offset stored before the first
  call is at most \<open>N - H\<close>.
\<close>

theorem cropTree_idempotent:
  assumes "0 < H"
    and "2 * EdgePadding r < H \<or> offsetMem r \<le> int (length ls) - H"
  shows "snd (cropTree (snd (cropTree r ls c H)) ls c H) = snd (cropTree r ls c H)"
  using assms by (auto simp: cropTree_def Let_def min_def max_def)

theorem cropTree_idempotent_witness:
  "(0::int) < 10
   \<and> (2 * EdgePadding \<lparr>EdgePadding = 2, offsetMem = 0\<rparr> < 10
        \<or> offsetMem \<lparr>EdgePadding = 2, offsetMem = 0\<rparr> \<le> int (length (replicate 20 ''line'')) - 10)
   \<and> snd (cropTree (snd (cropTree \<lparr>EdgePadding = 2, offsetMem = 0\<rparr> (replicate 20 ''line'') 15 10))
        (replicate 20 ''line'') 15 10)
       = snd (cropTree \<lparr>EdgePadding = 2, offsetMem = 0\<rparr> (replicate 20 ''line'') 15 10)
   \<and> offsetMem (snd (cropTree \<lparr>EdgePadding = 2, offsetMem = 0\<rparr> (replicate 20 ''line'') 15 10)) = 8"
  using cropTree_idempotent [of 10 "\<lparr>EdgePadding = 2, offsetMem = 0\<rparr>" "replicate 20 ''line''" 15]
  by (simp add: cropTree_def slice_def)

text \<open>
  Claim C7, as stated: with \<open>H \<le> 0\<close> the crop returns the full list and leaves the offset
  untouched. The offset is untouched, but the slice returned starts at the stored offset:
  with three lines and a stored offset of 1 the call returns the last two lines.
\<close>

theorem cropTree_zero_height_counterexample:
  "fst (cropTree \<lparr>EdgePadding = 2, offsetMem = 1\<rparr> [''a'', ''b'', ''c''] 0 0) = Inr [''b'', ''c'']
   \<and> fst (cropTree \<lparr>EdgePadding = 2, offsetMem = 1\<rparr> [''a'', ''b'', ''c''] 0 0)
        \<noteq> Inr [''a'', ''b'', ''c'']"
  by (simp add: cropTree_def slice_def)

text \<open>
  Claim C7, amended: with \<open>H \<le> 0\<close> and a stored offset between 0 and the number of
  lines, the crop returns the lines from the stored offset to the end of the list (the full
  list when the offset is 0) and leaves the renderer, the stored offset included,
  untouched.
\<close>

theorem cropTree_no_height:
  assumes "H \<le> 0" and "0 \<le> offsetMem r" and "offsetMem r \<le> int (length ls)"
  shows "cropTree r ls c H = (Inr (drop (nat (offsetMem r)) ls), r)"
  using assms by (simp add: cropTree_def slice_def Let_def)

theorem cropTree_no_height_witness:
  "(- 1 :: int) \<le> 0
   \<and> 0 \<le> offsetMem \<lparr>EdgePadding = 2, offsetMem = 0\<rparr>
   \<and> offsetMem \<lparr>EdgePadding = 2, offsetMem = 0\<rparr> \<le> int (length [''a'', ''b'', ''c''])
   \<and> cropTree \<lparr>EdgePadding = 2, offsetMem = 0\<rparr> [''a'', ''b'', ''c''] 1 (- 1)
       = (Inr [''a'', ''b'', ''c''], \<lparr>EdgePadding = 2, offsetMem = 0\<rparr>)"
  using cropTree_no_height [of "- 1" "\<lparr>EdgePadding = 2, offsetMem = 0\<rparr>" "[''a'', ''b'', ''c'']" 1]
  by simp


section \<open>Properties of the flattening\<close>

declare renderLoop.simps [simp del]
declare sizeLoop.simps [simp del]
declare excessBits.simps [simp del]
declare decimal.simps [simp del]

lemmas fixture_defs =
  plain_def fileNode_def dirNode_def emptyRepo_def eightFiles_def fullRepo_def subRepo_def
  emptyState_def fullState_def

lemmas render_defs =
  renderTree_def renderTree_ui_def renderLoop.simps Push_def Pop_def Len_def pushChildren_def
  styledName_def styledName_ui_def same_node_def placeholder_def nodeLine_def Repeat_def str_def

lemma pushChildren_eq: "pushChildren s chs depth = s @ map (\<lambda>ch. (ch, depth + 1)) (rev chs)"
proof -
  have "foldl (\<lambda>s' ch. Push s' (ch, depth + 1)) s xs = s @ map (\<lambda>ch. (ch, depth + 1)) xs" for xs
    by (induction xs arbitrary: s) (simp_all add: Push_def)
  then show ?thesis by (simp add: pushChildren_def)
qed

lemma renderLoop_Nil: "renderLoop nm lib tree [] linen cur lines = (lines, cur)"
  by (simp add: renderLoop.simps Len_def)

lemma renderLoop_None:
  "renderLoop nm lib tree (s @ [(None, d)]) linen cur lines
     = renderLoop nm lib tree s (linen + 1) cur lines"
  by (subst renderLoop.simps) (simp add: Len_def Pop_def)

lemma renderLoop_leaf:
  "Children node = None \<Longrightarrow>
   renderLoop nm lib tree (s @ [(Some node, d)]) linen cur lines
     = renderLoop nm lib tree s (linen + 1)
         (if same_node (SelectedChild tree) node then linen + 1 else cur)
         (lines @ [nodeLine nm lib tree node d])"
  by (subst renderLoop.simps) (simp add: Len_def Pop_def nodeLine_def Let_def)

lemma renderLoop_children:
  "Children node = Some chs \<Longrightarrow> chs \<noteq> [] \<or> addr (CurrentDir tree) \<noteq> addr node \<Longrightarrow>
   renderLoop nm lib tree (s @ [(Some node, d)]) linen cur lines
     = renderLoop nm lib tree (s @ map (\<lambda>ch. (ch, d + 1)) (rev chs)) (linen + 1)
         (if same_node (SelectedChild tree) node then linen + 1 else cur)
         (lines @ [nodeLine nm lib tree node d])"
  by (subst renderLoop.simps)
     (auto simp add: Len_def Pop_def nodeLine_def Let_def pushChildren_eq)

lemma renderLoop_empty_dir:
  "Children node = Some [] \<Longrightarrow> addr (CurrentDir tree) = addr node \<Longrightarrow>
   renderLoop nm lib tree (s @ [(Some node, d)]) linen cur lines
     = renderLoop nm lib tree s (linen + 1) (linen + 1 + 1)
         (lines @ [nodeLine nm lib tree node d, placeholder lib d])"
  by (subst renderLoop.simps) (simp add: Len_def Pop_def nodeLine_def Let_def pushChildren_eq)

lemma visited_None: "visited (None, d) = []"
  by (simp add: visited_def)

lemma visited_Some: "visited (Some node, d) = preorder d node"
  by (simp add: visited_def)

lemma visited_children:
  "Children node = Some chs \<Longrightarrow>
   concat (map visited (map (\<lambda>ch. (ch, d + 1)) chs)) = tl (preorder d node)"
  by (cases node) (simp add: visited_def comp_def cong: option.case_cong)

lemma preorder_hd: "preorder d node = (node, d) # tl (preorder d node)"
  by (cases node) simp

lemma emitted_pair:
  "emitted nm lib tree (node, d) =
     nodeLine nm lib tree node d #
       (if Children node = Some [] \<and> addr (CurrentDir tree) = addr node
        then [placeholder lib d] else [])"
  by (simp add: emitted_def)

lemma renderLoop_push:
  assumes "Children node = Some chs"
  shows "\<exists>cur'. renderLoop nm lib tree (s @ [(Some node, d)]) linen cur lines
           = renderLoop nm lib tree (s @ map (\<lambda>ch. (ch, d + 1)) (rev chs)) (linen + 1) cur'
               (lines @ emitted nm lib tree (node, d))"
proof (cases "chs = [] \<and> addr (CurrentDir tree) = addr node")
  case True
  then show ?thesis
    using assms renderLoop_empty_dir [of node tree nm lib s d linen cur lines]
    by (auto simp add: emitted_pair)
next
  case False
  then show ?thesis
    using assms renderLoop_children [of node chs tree nm lib s d linen cur lines]
    by (auto simp add: emitted_pair)
qed

lemma size_list_rev: "size_list g (rev xs) = size_list g xs"
  by (induction xs) (simp_all add: size_list_append)

lemma size_Node_children:
  "Children node = Some chs \<Longrightarrow> size node = size_list (size_option size) chs + 2"
  by (cases node) simp

lemma stack_weight_push:
  assumes "Children node = Some chs"
  shows "size_list (\<lambda>el. size_option size (fst el)) (s @ map (\<lambda>ch. (ch, d + 1)) (rev chs))
       < size_list (\<lambda>el. size_option size (fst el)) (s @ [(Some node, d)])"
proof -
  have "size_list (\<lambda>el. size_option size (fst el)) (map (\<lambda>ch. (ch, d + 1)) (rev chs))
        = size_list (size_option size) chs"
    by (simp add: comp_def size_list_rev)
  then show ?thesis
    using assms by (simp add: size_list_append size_Node_children)
qed

text \<open>
  The loop appends, to the lines it was given, the lines of the nodes still to be visited:
  the subtrees on the stack in pre-order, from the top of the stack downwards.
\<close>

lemma renderLoop_lines:
  "fst (renderLoop nm lib tree s linen cur lines)
     = lines @ concat (map (emitted nm lib tree) (concat (map visited (rev s))))"
proof (induction "size_list (\<lambda>el. size_option size (fst el)) s"
         arbitrary: s linen cur lines rule: less_induct)
  case less
  show ?case
  proof (cases s rule: rev_cases)
    case Nil
    then show ?thesis by (simp add: renderLoop_Nil)
  next
    case (snoc s1 el)
    obtain n d where el: "el = (n, d)" by (cases el)
    have smaller: "size_list (\<lambda>el. size_option size (fst el)) s1
                     < size_list (\<lambda>el. size_option size (fst el)) s"
      by (simp add: snoc size_list_append)
    show ?thesis
    proof (cases n)
      case None
      show ?thesis
        using less.hyps [OF smaller, of "linen + 1" cur lines]
        by (simp add: snoc el None renderLoop_None visited_None)
    next
      case (Some node)
      show ?thesis
      proof (cases "Children node")
        case None
        have "preorder d node = [(node, d)]"
          using None by (cases node) simp
        then show ?thesis
          using less.hyps [OF smaller, of "linen + 1"
              "if same_node (SelectedChild tree) node then linen + 1 else cur"
              "lines @ [nodeLine nm lib tree node d]"]
          by (simp add: snoc el Some None renderLoop_leaf visited_Some emitted_pair)
      next
        case chs: (Some chs)
        let ?s2 = "s1 @ map (\<lambda>ch. (ch, d + 1)) (rev chs)"
        obtain cur' where step:
          "renderLoop nm lib tree s linen cur lines
             = renderLoop nm lib tree ?s2 (linen + 1) cur' (lines @ emitted nm lib tree (node, d))"
          using renderLoop_push [OF chs, of nm lib tree s1 d linen cur lines]
          by (auto simp add: snoc el Some)
        have "size_list (\<lambda>el. size_option size (fst el)) ?s2
                < size_list (\<lambda>el. size_option size (fst el)) s"
          using stack_weight_push [OF chs, of s1 d] by (simp add: snoc el Some)
        then have "fst (renderLoop nm lib tree ?s2 (linen + 1) cur'
                          (lines @ emitted nm lib tree (node, d)))
                = (lines @ emitted nm lib tree (node, d))
                    @ concat (map (emitted nm lib tree) (concat (map visited (rev ?s2))))"
          by (rule less.hyps)
        moreover have "concat (map visited (rev ?s2))
                         = tl (preorder d node) @ concat (map visited (rev s1))"
          using visited_children [OF chs, of d] by (simp add: rev_map)
        moreover have "concat (map visited (rev s))
                         = (node, d) # tl (preorder d node) @ concat (map visited (rev s1))"
          using preorder_hd [of d node] by (simp add: snoc el Some visited_Some)
        ultimately show ?thesis
          by (simp add: step)
      qed
    qed
  qed
qed






lemma renderLoop_root:
  "fst (renderLoop nm lib tree (Push [] (Root tree, 0)) linen cur [])
     = concat (map (emitted nm lib tree)
         (case Root tree of None \<Rightarrow> [] | Some n \<Rightarrow> preorder 0 n))"
  by (cases "Root tree") (simp_all add: renderLoop_lines Push_def visited_None visited_Some)

text \<open>Three children: the subtree of the first in full, then the second's, then the third's.\<close>

lemma preorder_siblings:
  "preorder d (Node a p i (Some [Some x, Some y, Some z]))
     = (Node a p i (Some [Some x, Some y, Some z]), d)
         # preorder (d + 1) x @ preorder (d + 1) y @ preorder (d + 1) z"
  by simp

lemma preorder_nil_children: "preorder d (Node a p i None) = [(Node a p i None, d)]"
  by simp

text \<open>
  Claim C2. The lines that \<open>renderTree\<close> returns are the lines of the nodes of the tree in
  pre-order of the stored child order: a parent's line, then the whole subtree of each
  child, the siblings from left to right, a node with nil children listed and not entered.
  The loop reaches this order with its last-in-first-out stack because \<open>pushChildren\<close>
  pushes the children in reverse. This holds for both versions of \<open>renderTree\<close>.
\<close>

theorem renderTree_preorder:
  "fst (renderTree lib tree widthLim)
     = concat (map (emitted (styledName lib tree widthLim) lib tree)
         (case Root tree of None \<Rightarrow> [] | Some n \<Rightarrow> preorder 0 n))
   \<and> fst (renderTree_ui lib tree)
     = concat (map (emitted (styledName_ui lib) lib tree)
         (case Root tree of None \<Rightarrow> [] | Some n \<Rightarrow> preorder 0 n))"
  by (simp add: renderTree_def renderTree_ui_def renderLoop_root)







section \<open>Properties of the line format\<close>

text \<open>
  A node that is neither a directory nor marked: its name is cut to the first
  \<open>max 0 (W - indent - 6)\<close> code points and an ellipsis when indent and name exceed
  \<open>W - 6\<close>, and is left as it is otherwise.
\<close>

lemma styledName_file:
  assumes "\<not> IsDir (Info node)" and "\<not> same_node (Marked tree) node"
  shows "styledName lib tree widthLim node depth
       = (if int (length (Name (Info node))) + 2 * int depth > widthLim - 6
          then take (nat (max 0 (widthLim - 2 * int depth - 6))) (Name (Info node)) @ str ''...''
          else Name (Info node))"
proof -
  have "length (Repeat (str ''  '') depth) = 2 * depth"
    by (induction depth) (simp_all add: Repeat_def str_def)
  then show ?thesis
    using assms by (simp add: styledName_def Let_def)
qed

text \<open>
  Claim C4. A name too long for the width budget should be cut, with an ellipsis, for
  directory nodes as for files. The code computes the cut name and then, for a directory,
  assigns the colour function applied to the full name \<open>node.Info.Name()\<close>: with a width
  limit of 10 and a name of sixteen code points at depth 0, a file is shown as its first
  four code points and an ellipsis, a directory of the same name in full.
\<close>

theorem styledName_directory_not_truncated:
  "styledName plain emptyRepo 10
       (dirNode 5 ''/repo/abcdefghijklmnop'' ''abcdefghijklmnop'' []) 0
     = str ''abcdefghijklmnop''
   \<and> styledName plain emptyRepo 10
       (fileNode 5 ''/repo/abcdefghijklmnop'' ''abcdefghijklmnop'') 0
     = str ''abcd...''"
  by (simp add: styledName_def fixture_defs same_node_def Repeat_def str_def)

section \<open>Properties of the size formatter\<close>

text \<open>
  Claim C5, as stated: base 1024 gives \<open>0 B\<close> for 0, \<open>1.50 Kb\<close> for 1536, \<open>1023 b\<close> for 1023
  and \<open>2.00 Kb\<close> for 2048. The unit of bytes is the lower-case \<open>b\<close>, and two decimals are
  printed only from the third unit on (\<open>i > 1\<close>), so none of the three other strings is
  returned.
\<close>

theorem formatSize_claimed_counterexample:
  "formatSize 0 1024 \<noteq> Inr (str ''0 B'')
   \<and> formatSize 1536 1024 \<noteq> Inr (str ''1.50 Kb'')
   \<and> formatSize 2048 1024 \<noteq> Inr (str ''2.00 Kb'')"
  by (simp add: formatSize_def sizeLoop.simps sizes_def fmtFixed_def roundHalfEven_def
        decimal.simps str_def)

text \<open>
  Claim C5, amended: base 1024 gives \<open>0 b\<close> for 0, \<open>2 Kb\<close> for 1536 (one and a half,
  printed without decimals, ties to even), \<open>1023 b\<close> for 1023 (the unit changes only at the
  base) and \<open>2 Kb\<close> for 2048.
\<close>

theorem formatSize_examples:
  "formatSize 0 1024 = Inr (str ''0 b'')
   \<and> formatSize 1536 1024 = Inr (str ''2 Kb'')
   \<and> formatSize 1023 1024 = Inr (str ''1023 b'')
   \<and> formatSize 2048 1024 = Inr (str ''2 Kb'')"
  by (simp add: formatSize_def sizeLoop.simps sizes_def fmtFixed_def roundHalfEven_def
        decimal.simps str_def)

lemma formatSize_two_decimals:
  "formatSize (3 * 1024 * 1024 / 2) 1024 = Inr (str ''1.50 Mb'')"
  by (simp add: formatSize_def sizeLoop.simps sizes_def fmtFixed_def roundHalfEven_def
        decimal.simps str_def)

text \<open>
  The loop leaves the unit table only for a size of at least \<open>1024 ^ 7\<close>; the conversion
  of an \<open>int64\<close> stays below that, so the index is in range wherever the renderer calls
  the formatter.
\<close>

lemma sizeLoop_index:
  "i < 7 \<Longrightarrow> s < 1024 ^ (7 - i) \<Longrightarrow> snd (sizeLoop s 1024 i) < 7"
proof (induction s "1024 :: real" i rule: sizeLoop.induct)
  case (1 s i)
  show ?case
  proof (cases "s \<ge> 1024")
    case True
    with 1(3) have "i \<noteq> 6" by auto
    with 1(2) have i: "i + 1 < 7" by simp
    have "7 - i = Suc (7 - (i + 1))" using i by simp
    then have "s < 1024 * 1024 ^ (7 - (i + 1))" using 1(3) by simp
    then have "s / 1024 < 1024 ^ (7 - (i + 1))" by simp
    then have "snd (sizeLoop (s / 1024) 1024 (i + 1)) < 7"
      using 1(1) True 1(2) i by (simp add: sizes_def)
    then show ?thesis
      using True 1(2) by (subst sizeLoop.simps) (simp add: sizes_def)
  next
    case False
    then show ?thesis
      using 1(2) by (subst sizeLoop.simps) simp
  qed
qed

lemma formatSize_total:
  assumes "s < 2 ^ 70"
  shows "\<exists>out. formatSize s 1024 = Inr out"
proof -
  have "s < 1024 ^ (7 - 0)" using assms by simp
  then have "snd (sizeLoop s 1024 0) < 7"
    by (intro sizeLoop_index) simp_all
  moreover obtain s' i where "sizeLoop s 1024 0 = (s', i)"
    by (cases "sizeLoop s 1024 0")
  ultimately show ?thesis
    by (simp add: formatSize_def sizes_def)
qed

lemma formatSize_too_large: "formatSize (2 ^ 70) 1024 = Inl IndexRange"
  by (simp add: formatSize_def sizes_def sizeLoop.simps)

lemma excessBits_bound: "a < 2 ^ 53 * 2 ^ excessBits a"
proof (induction a rule: excessBits.induct)
  case (1 a)
  show ?case
  proof (cases "a < 2 ^ 53")
    case True
    then show ?thesis by (simp add: excessBits.simps)
  next
    case False
    then have "a div 2 < 2 ^ 53 * 2 ^ excessBits (a div 2)"
      using 1 by simp
    then have "a < 2 ^ 53 * 2 ^ Suc (excessBits (a div 2))" by simp
    moreover have "excessBits a = Suc (excessBits (a div 2))"
      using False by (subst excessBits.simps) simp
    ultimately show ?thesis by simp
  qed
qed

lemma excessBits_le: "a < 2 ^ 53 * 2 ^ k \<Longrightarrow> excessBits a \<le> k"
proof (induction a arbitrary: k rule: excessBits.induct)
  case (1 a)
  show ?case
  proof (cases "a < 2 ^ 53")
    case True
    then show ?thesis by (simp add: excessBits.simps)
  next
    case False
    with 1(2) have "k \<noteq> 0" by (cases k) auto
    then obtain k' where k: "k = Suc k'" by (cases k) auto
    have "a div 2 < 2 ^ 53 * 2 ^ k'" using 1(2) k by simp
    then have "excessBits (a div 2) \<le> k'" using 1(1) False by simp
    moreover have "excessBits a = Suc (excessBits (a div 2))"
      using False by (subst excessBits.simps) simp
    ultimately show ?thesis using k by simp
  qed
qed

lemma float64_small: "\<bar>x\<bar> < 2 ^ 53 \<Longrightarrow> float64 x = of_int x"
proof -
  assume "\<bar>x\<bar> < 2 ^ 53"
  then have "excessBits \<bar>x\<bar> = 0" by (simp add: excessBits.simps)
  then show ?thesis
    by (cases "x < 0") (simp_all add: float64_def Let_def sgn_if)
qed

lemma float64_le:
  assumes "\<bar>x\<bar> \<le> 2 ^ 63"
  shows "float64 x \<le> 2 ^ 64"
proof -
  define a where "a = \<bar>x\<bar>"
  define e where "e = excessBits a"
  define q where "q = a div 2 ^ e"
  define q' where "q' = (if 2 * (a mod 2 ^ e) > 2 ^ e \<or> (2 * (a mod 2 ^ e) = 2 ^ e \<and> odd q) then q + 1 else q)"
  have f: "float64 x = of_int (sgn x * q' * 2 ^ e)"
    by (simp add: float64_def Let_def a_def e_def q_def q'_def)
  have "a < 2 ^ 53 * 2 ^ 11" using assms by (simp add: a_def)
  then have e11: "e \<le> 11" unfolding e_def by (rule excessBits_le)
  have "a < 2 ^ 53 * 2 ^ e" unfolding e_def by (rule excessBits_bound)
  moreover have "q * 2 ^ e \<le> a"
  proof -
    have "(0::int) \<le> a mod 2 ^ e" by (rule pos_mod_sign) simp
    then show ?thesis
      using div_mult_mod_eq [of a "2 ^ e"] unfolding q_def by linarith
  qed
  ultimately have "q * 2 ^ e < 2 ^ 53 * 2 ^ e" by linarith
  then have "q < 2 ^ 53" by (simp only: mult_less_cancel_right) simp
  then have q'le: "q' \<le> 2 ^ 53" by (simp add: q'_def)
  have "0 \<le> q" by (simp add: q_def a_def pos_imp_zdiv_nonneg_iff)
  then have q'0: "0 \<le> q'" by (simp add: q'_def)
  have "(2::int) ^ e \<le> 2 ^ 11" using e11 by (intro power_increasing) simp_all
  then have "q' * 2 ^ e \<le> 2 ^ 53 * 2 ^ 11"
    using q'le q'0 by (intro mult_mono) simp_all
  moreover have "sgn x * q' * 2 ^ e \<le> q' * 2 ^ e"
    using q'0 by (cases "x < 0"; cases "x = 0") (simp_all add: sgn_if)
  ultimately have "sgn x * q' * 2 ^ e \<le> 2 ^ 64" by simp
  then have "(of_int (sgn x * q' * 2 ^ e) :: real) \<le> of_int (2 ^ 64)"
    by (simp only: of_int_le_iff)
  then show ?thesis by (simp add: f)
qed

lemma formatSize_int64: "\<exists>out. formatSize (float64 (sint (w :: 64 word))) 1024 = Inr out"
proof -
  have "sint w < 2 ^ 63" "- (2 ^ 63) \<le> sint w"
    using sint_lt [of w] sint_ge [of w] by simp_all
  then have "\<bar>sint w\<bar> \<le> 2 ^ 63" by simp
  then have "float64 (sint w) \<le> 2 ^ 64" by (rule float64_le)
  then have "float64 (sint w) < 2 ^ 70" by simp
  then show ?thesis by (rule formatSize_total)
qed

section \<open>Properties of the frame\<close>

lemma renderHeading_rows:
  "\<exists>row1 row2 row3.
     renderHeading lib s = Inr (Join [row1, row2, row3] nl, 3)
     \<and> (SelectedChild (Tree s) = None \<longrightarrow>
          row1 = GreenString lib (str ''> '' @ Path (CurrentDir (Tree s)) @ str ''/...'')
        \<and> row2 = MagentaString lib (str ''-- : 0 B''))"
proof (cases "SelectedChild (Tree s)")
  case None
  then show ?thesis
    by (simp add: renderHeading_def Let_def str_def split del: if_split)
next
  case (Some sel)
  obtain out where "formatSize (float64 (sint (Size (Info sel)))) 1024 = Inr out"
    using formatSize_int64 by blast
  then show ?thesis
    using Some by (simp add: renderHeading_def Let_def split del: if_split) blast
qed



text \<open>
  Claim C9. When the total width or the total height is below the minimum of 10, the
  layout function \<open>renderTreeWithContent\<close> returns the literal notice \<open>too small =(\<close> and
  a newline, and \<open>Render\<close> returns that notice below the heading; the pane layout is not
  attempted and the renderer, its stored offset included, is unchanged.
\<close>

theorem too_small_notice:
  assumes "winWidth < minWidth \<or> winHeight < minHeight"
  shows "\<exists>heading. renderHeading lib s = Inr (heading, 3)
           \<and> renderTreeWithContent lib r (Tree s) (winHeight - 3) winWidth
               = (Inr (str ''too small =('' @ nl), r)
           \<and> Render lib r s winHeight winWidth
               = (Inr (heading @ nl @ str ''too small =('' @ nl), r)"
proof -
  obtain row1 row2 row3 where
    h: "renderHeading lib s = Inr (Join [row1, row2, row3] nl, 3)"
    using renderHeading_rows [of lib s] by auto
  have "winWidth < minWidth \<or> winHeight - 3 < minHeight"
    using assms by auto
  then have "renderTreeWithContent lib r (Tree s) (winHeight - 3) winWidth
               = (Inr (str ''too small =('' @ nl), r)"
    by (simp add: renderTreeWithContent_def)
  then show ?thesis
    by (simp add: Render_def h)
qed

theorem too_small_notice_witness:
  "((80::int) < minWidth \<or> (9::int) < minHeight)
   \<and> Render plain \<lparr>EdgePadding = 2, offsetMem = 0\<rparr> emptyState 9 80
       = (Inr (str ''> /repo/...'' @ nl @ str ''-- : 0 B'' @ nl @ str '': '' @ nl
                 @ str ''too small =('' @ nl),
          \<lparr>EdgePadding = 2, offsetMem = 0\<rparr>)"
  using too_small_notice [of 80 9 plain emptyState "\<lparr>EdgePadding = 2, offsetMem = 0\<rparr>"]
  by (simp add: minWidth_def minHeight_def renderHeading_def fixture_defs str_def)

lemma fullRepo_lines:
  "snd (renderTree plain fullRepo 40) = 8 \<and> length (fst (renderTree plain fullRepo 40)) = 9
   \<and> snd (renderTree_ui plain fullRepo) = 8 \<and> length (fst (renderTree_ui plain fullRepo)) = 9"
  by (simp add: render_defs fixture_defs)

text \<open>
  Claim C8. \<open>Render\<close> should return a string for every input. A directory of eight files
  with the last one selected has nine lines; in a window of 13 rows (10 after the
  heading) with padding 2 and a fresh renderer, \<open>cropTree\<close> stores the offset \<open>-1\<close> and its
  slice expression panics, and so does \<open>Render\<close>. The older \<open>Render\<close> of \<open>ui.go\<close> panics
  on the same tree in a window of 10 rows.
\<close>

theorem Render_panics_on_short_tree:
  "Render plain \<lparr>EdgePadding = 2, offsetMem = 0\<rparr> fullState 13 80
     = (Inl SliceBounds, \<lparr>EdgePadding = 2, offsetMem = - 1\<rparr>)
   \<and> Render_ui plain \<lparr>EdgePadding = 2, offsetMem = 0\<rparr> fullRepo 10 80
     = (Inl SliceBounds, \<lparr>EdgePadding = 2, offsetMem = - 1\<rparr>)"
proof -
  have "formatSize (float64 (sint (0 :: 64 word))) 1024 = Inr (str ''0 b'')"
    by (simp add: float64_small formatSize_def sizeLoop.simps sizes_def fmtFixed_def
          roundHalfEven_def decimal.simps str_def)
  then obtain h where h: "renderHeading plain fullState = Inr (h, 3)"
    by (simp add: renderHeading_def fullState_def fullRepo_def fileNode_def)
  have c: "cropTree \<lparr>EdgePadding = 2, offsetMem = 0\<rparr> (fst (renderTree plain fullRepo 40)) 8 10
             = (Inl SliceBounds, \<lparr>EdgePadding = 2, offsetMem = - 1\<rparr>)"
    using fullRepo_lines by (simp add: cropTree_def slice_def)
  have c': "cropTree \<lparr>EdgePadding = 2, offsetMem = 0\<rparr> (fst (renderTree_ui plain fullRepo)) 8 10
             = (Inl SliceBounds, \<lparr>EdgePadding = 2, offsetMem = - 1\<rparr>)"
    using fullRepo_lines by (simp add: cropTree_def slice_def)
  have "renderTreeWithContent plain \<lparr>EdgePadding = 2, offsetMem = 0\<rparr> fullRepo 10 80
          = (Inl SliceBounds, \<lparr>EdgePadding = 2, offsetMem = - 1\<rparr>)"
    using fullRepo_lines by (simp add: renderTreeWithContent_def minWidth_def minHeight_def c)
  then have "Render plain \<lparr>EdgePadding = 2, offsetMem = 0\<rparr> fullState 13 80
     = (Inl SliceBounds, \<lparr>EdgePadding = 2, offsetMem = - 1\<rparr>)"
    using h by (simp add: Render_def fullState_def)
  moreover have "Render_ui plain \<lparr>EdgePadding = 2, offsetMem = 0\<rparr> fullRepo 10 80
     = (Inl SliceBounds, \<lparr>EdgePadding = 2, offsetMem = - 1\<rparr>)"
    using fullRepo_lines by (simp add: Render_ui_def c')
  ultimately show ?thesis by simp
qed

end
